theory Spec2Isabelle
  imports
    Complex_Main
    "HOL-Library.Char_ord"
    "HOL-Library.List_Lexorder"
    "HOL-Library.Product_Lexorder"
    "HOL-Library.AList"
    "HOL-Library.Multiset"
begin

section \<open>The molecules builder of emmet (emmet/qchem/molecules.py)\<close>

text \<open>
  A shallow embedding of \<^verbatim>\<open>MoleculesBuilder\<close>: the extraction of candidate properties from
  task documents, the choice of the molecule id, the resolution of conflicts between
  candidates, the assembly of the molecule document, its validation, and the computation of
  the formulas to process. Every exception of the Python code is a value \<open>Inl e\<close>.
\<close>

subsection \<open>Python values\<close>

datatype error =
  IndexError | KeyError | ValueError | TypeError | NameError | AttributeError | PlainException

text \<open>
  Hashable scalars, used as task ids and dictionary keys: a \<^verbatim>\<open>str\<close>, an \<^verbatim>\<open>int\<close> and
  \<^verbatim>\<open>None\<close> (standing for every id that is neither a string nor a number; ids that are
  floats are not modelled).
  Strings are byte strings; their order is the lexicographic order of the bytes, which is
  the order of Python's \<^verbatim>\<open>str\<close> on code points.
\<close>

datatype atom = AStr string | ANum int | ANone

text \<open>
  JSON-like documents. Floats are modelled by rationals (no rounding, no NaN), datetimes by
  integers. A dictionary is an association list in insertion order with distinct keys.
\<close>

datatype pyval =
    VAtom atom
  | VBool bool
  | VReal rat
  | VTime int
  | VList "pyval list"
  | VDict "(atom \<times> pyval) list"

type_synonym dict = "(atom \<times> pyval) list"

definition has_key :: "atom \<Rightarrow> dict \<Rightarrow> bool" where
  \<comment> \<open>\<^verbatim>\<open>k in d\<close>\<close>
  "has_key k d = (k \<in> fst ` set d)"

subsection \<open>Strings: \<^verbatim>\<open>str.split\<close> and \<^verbatim>\<open>int\<close>\<close>

fun py_split :: "char \<Rightarrow> string \<Rightarrow> string list" where
  \<comment> \<open>\<^verbatim>\<open>s.split(sep)\<close> for a separator of one character\<close>
  "py_split sep [] = [[]]"
| "py_split sep (c # cs) =
     (if c = sep then [] # py_split sep cs
      else (case py_split sep cs of [] \<Rightarrow> [[c]] | w # ws \<Rightarrow> (c # w) # ws))"

definition is_space :: "char \<Rightarrow> bool" where
  "is_space c = (of_char c \<in> {9, 10, 11, 12, 13, 32 :: nat})"

definition is_digit :: "char \<Rightarrow> bool" where
  "is_digit c = (48 \<le> (of_char c :: nat) \<and> (of_char c :: nat) \<le> 57)"

definition strip :: "string \<Rightarrow> string" where
  "strip s = rev (dropWhile is_space (rev (dropWhile is_space s)))"

definition digits_val :: "string \<Rightarrow> nat" where
  "digits_val ds = foldl (\<lambda>a c. 10 * a + (of_char c - 48)) 0 ds"

definition py_int :: "string \<Rightarrow> error + int" where
  \<comment> \<open>\<^verbatim>\<open>int(s)\<close> on an ASCII string: surrounding whitespace, an optional sign, decimal digits
      with single underscores between them; anything else is a ValueError\<close>
  "py_int s =
     (let b = strip s;
          neg = (case b of [] \<Rightarrow> False | c # _ \<Rightarrow> c = CHR ''-'');
          body = (case b of [] \<Rightarrow> [] | c # r \<Rightarrow> if c = CHR ''-'' \<or> c = CHR ''+'' then r else b);
          parts = py_split CHR ''_'' body
      in if list_all (\<lambda>p. p \<noteq> [] \<and> list_all is_digit p) parts
         then Inr ((if neg then - 1 else 1) * int (digits_val (concat parts)))
         else Inl ValueError)"

subsection \<open>pydash: \<^verbatim>\<open>has\<close>, \<^verbatim>\<open>get\<close>, \<^verbatim>\<open>set_\<close> on dotted paths of dictionary keys\<close>

text \<open>
  The library functions are modelled for paths whose tokens are plain dictionary keys
  separated by dots. \<^verbatim>\<open>set_\<close> creates the dictionaries missing on the way; where a value on
  the way exists and is not a dictionary the model answers AttributeError.
\<close>

fun base_get :: "string list \<Rightarrow> pyval \<Rightarrow> pyval option" where
  "base_get [] v = Some v"
| "base_get (k # ks) (VDict d) =
     (case map_of d (AStr k) of None \<Rightarrow> None | Some v \<Rightarrow> base_get ks v)"
| "base_get (k # ks) _ = None"

definition has :: "dict \<Rightarrow> string \<Rightarrow> bool" where
  "has obj path = (base_get (py_split CHR ''.'' path) (VDict obj) \<noteq> None)"

definition get :: "dict \<Rightarrow> string \<Rightarrow> pyval \<Rightarrow> pyval" where
  "get obj path dflt =
     (case base_get (py_split CHR ''.'' path) (VDict obj) of None \<Rightarrow> dflt | Some v \<Rightarrow> v)"

fun set_tokens :: "string list \<Rightarrow> pyval \<Rightarrow> dict \<Rightarrow> error + dict" where
  "set_tokens [] v d = Inr d"
| "set_tokens [k] v d = Inr (AList.update (AStr k) v d)"
| "set_tokens (k # k' # ks) v d =
     (case map_of d (AStr k) of
        None \<Rightarrow>
          (case set_tokens (k' # ks) v [] of
             Inl e \<Rightarrow> Inl e
           | Inr sub \<Rightarrow> Inr (AList.update (AStr k) (VDict sub) d))
      | Some (VDict sub0) \<Rightarrow>
          (case set_tokens (k' # ks) v sub0 of
             Inl e \<Rightarrow> Inl e
           | Inr sub \<Rightarrow> Inr (AList.update (AStr k) (VDict sub) d))
      | Some _ \<Rightarrow> Inl AttributeError)"

definition set_at :: "dict \<Rightarrow> string \<Rightarrow> pyval \<Rightarrow> error + dict" where
  "set_at obj path v = set_tokens (py_split CHR ''.'' path) v obj"

definition top_key :: "string \<Rightarrow> string" where
  \<comment> \<open>the first key of a dotted path: the key of the document under which \<^verbatim>\<open>set_\<close> writes\<close>
  "top_key path = hd (py_split CHR ''.'' path)"

subsection \<open>Rules, tasks and candidate properties\<close>

text \<open>One entry of the settings (the rule table).\<close>

record rule =
  r_molecules_key :: string
  r_tasks_key :: string
  r_quality_score :: "(string \<times> rat) list"
  r_optional :: bool
  r_track :: bool
  r_aggregate :: bool

text \<open>
  A task document. \<open>t_task_type\<close> is the result of the classifier \<^verbatim>\<open>task_type(task["orig"])\<close>,
  \<open>t_last_updated\<close> the field \<^verbatim>\<open>task[self.tasks.lu_field]\<close>, and \<open>t_body\<close> holds every other
  key of the document (among them \<^verbatim>\<open>output\<close>).
\<close>

record task =
  t_task_id :: atom
  t_task_type :: string
  t_formula_pretty :: string
  t_state :: string
  t_last_updated :: int
  t_body :: dict

definition lu_field :: string where
  \<comment> \<open>\<^verbatim>\<open>Store.lu_field\<close> of maggma, for both stores\<close>
  "lu_field = ''last_updated''"

definition store_key :: string where
  \<comment> \<open>\<^verbatim>\<open>Store.key\<close> of maggma, for both stores\<close>
  "store_key = ''task_id''"

definition task_doc :: "task \<Rightarrow> dict" where
  \<comment> \<open>the task as the dictionary that pydash reads\<close>
  "task_doc t =
     [(AStr ''task_id'', VAtom (t_task_id t)),
      (AStr ''formula_pretty'', VAtom (AStr (t_formula_pretty t))),
      (AStr ''state'', VAtom (AStr (t_state t))),
      (AStr lu_field, VTime (t_last_updated t))] @ t_body t"

text \<open>The dictionary built by \<^verbatim>\<open>task_to_prop_list\<close> for one task and one rule.\<close>

record candidate =
  "value" :: pyval
  task_type :: string
  task_id :: atom
  quality_score :: rat
  track :: bool
  aggregate :: bool
  last_updated :: int
  energy :: pyval
  molecules_key :: string

definition prop_of_rule :: "task \<Rightarrow> rule \<Rightarrow> candidate list" where
  \<comment> \<open>one turn of the loop of \<^verbatim>\<open>task_to_prop_list\<close>: the entries it appends; a missing
      required path is only logged\<close>
  "prop_of_rule t r =
     (case map_of (r_quality_score r) (t_task_type t) of
        None \<Rightarrow> []
      | Some q \<Rightarrow>
          if has (task_doc t) (r_tasks_key r)
          then [\<lparr> value = get (task_doc t) (r_tasks_key r) (VAtom ANone),
                  task_type = t_task_type t,
                  task_id = t_task_id t,
                  quality_score = q,
                  track = r_track r,
                  aggregate = r_aggregate r,
                  last_updated = t_last_updated t,
                  energy = get (task_doc t) ''output.energy'' (VReal 0),
                  molecules_key = r_molecules_key r \<rparr>]
          else [])"

definition task_to_prop_list :: "rule list \<Rightarrow> task \<Rightarrow> candidate list" where
  "task_to_prop_list settings t = concat (map (prop_of_rule t) settings)"

subsection \<open>\<^verbatim>\<open>sorted\<close> and \<^verbatim>\<open>groupby\<close>\<close>

text \<open>
  \<^verbatim>\<open>sorted(xs, key=f)\<close> first computes the key of every element, in order, so the first
  exception of a key is the exception of the call; then it sorts stably.
  \<open>sort_key\<close> is the stable sort of the keys; with \<^verbatim>\<open>reverse=True\<close> Python reverses the
  list before and after sorting.
\<close>

fun first_error :: "(error + 'a) list \<Rightarrow> error option" where
  "first_error [] = None"
| "first_error (Inl e # xs) = Some e"
| "first_error (Inr v # xs) = first_error xs"

function groupby :: "('a \<Rightarrow> 'k) \<Rightarrow> 'a list \<Rightarrow> ('k \<times> 'a list) list" where
  \<comment> \<open>\<^verbatim>\<open>itertools.groupby\<close>: maximal runs of consecutive elements with the same key\<close>
  "groupby f [] = []"
| "groupby f (x # xs) =
     (f x, x # takeWhile (\<lambda>y. f y = f x) xs) # groupby f (dropWhile (\<lambda>y. f y = f x) xs)"
  by pat_completeness auto
termination
  by (relation "measure (\<lambda>(f, xs). length xs)") (auto simp: length_dropWhile_le less_Suc_eq_le)

subsection \<open>The molecule id\<close>

datatype idkey = PairKey string int | NumKey int

fun ID_to_int :: "atom \<Rightarrow> error + idkey" where
  "ID_to_int (AStr s) =
     (case py_int (last (py_split CHR ''-'' s)) of
        Inl e \<Rightarrow> Inl e
      | Inr n \<Rightarrow> Inr (PairKey (hd (py_split CHR ''-'' s)) n))"
| "ID_to_int (ANum n) = Inr (NumKey n)"
| "ID_to_int ANone = Inl PlainException"

definition is_pair :: "error + idkey \<Rightarrow> bool" where
  "is_pair k = (case k of Inr (PairKey p n) \<Rightarrow> True | _ \<Rightarrow> False)"

definition is_num :: "error + idkey \<Rightarrow> bool" where
  "is_num k = (case k of Inr (NumKey n) \<Rightarrow> True | _ \<Rightarrow> False)"

definition pair_key :: "atom \<Rightarrow> string \<times> int" where
  \<comment> \<open>the tuple of a string id\<close>
  "pair_key a = (case ID_to_int a of Inr (PairKey p n) \<Rightarrow> (p, n) | _ \<Rightarrow> ([], 0))"

definition num_key :: "atom \<Rightarrow> int" where
  \<comment> \<open>the key of a numeric id\<close>
  "num_key a = (case ID_to_int a of Inr (NumKey n) \<Rightarrow> n | _ \<Rightarrow> 0)"

definition sorted_by_ID :: "candidate list \<Rightarrow> error + candidate list" where
  \<comment> \<open>\<^verbatim>\<open>sorted(all_props, key=lambda x: ID_to_int(x["task_id"]))\<close>; Python cannot compare a
      tuple with a number, so keys of both kinds in one list are a TypeError\<close>
  "sorted_by_ID props =
     (let ks = map (\<lambda>x. ID_to_int (task_id x)) props in
      case first_error ks of
        Some e \<Rightarrow> Inl e
      | None \<Rightarrow>
          if list_all is_pair ks then Inr (sort_key (\<lambda>x. pair_key (task_id x)) props)
          else if list_all is_num ks then Inr (sort_key (\<lambda>x. num_key (task_id x)) props)
          else Inl TypeError)"

definition possible_mol_ids :: "candidate list \<Rightarrow> error + atom list" where
  \<comment> \<open>\<^verbatim>\<open>prop[self.tasks.key]\<close>, with the key \<^verbatim>\<open>task_id\<close> of the task store, is the task id of
      the candidate\<close>
  "possible_mol_ids props =
     (case sorted_by_ID props of Inl e \<Rightarrow> Inl e | Inr sp \<Rightarrow> Inr (map task_id sp))"

definition mol_id_of :: "candidate list \<Rightarrow> error + atom" where
  \<comment> \<open>\<^verbatim>\<open>mol_id = possible_mol_ids[0]\<close>\<close>
  "mol_id_of props =
     (case possible_mol_ids props of
        Inl e \<Rightarrow> Inl e
      | Inr [] \<Rightarrow> Inl IndexError
      | Inr (i # rest) \<Rightarrow> Inr i)"


subsection \<open>The best property of each molecules key\<close>

definition num_of :: "pyval \<Rightarrow> error + rat" where
  \<comment> \<open>the operand of \<^verbatim>\<open>-1.0 * x\<close>: a float, an int or a bool; any other value is a
      TypeError of the multiplication\<close>
  "num_of v =
     (case v of
        VReal r \<Rightarrow> Inr r
      | VAtom (ANum i) \<Rightarrow> Inr (of_int i)
      | VBool b \<Rightarrow> Inr (if b then 1 else 0)
      | _ \<Rightarrow> Inl TypeError)"

definition energy_num :: "candidate \<Rightarrow> rat" where
  \<comment> \<open>the energy of a candidate whose energy is a number\<close>
  "energy_num x = (case num_of (energy x) of Inr r \<Rightarrow> r | Inl e \<Rightarrow> 0)"

definition rank_key :: "candidate \<Rightarrow> rat \<times> rat" where
  \<comment> \<open>\<^verbatim>\<open>(x["quality_score"], -1.0 * x["energy"])\<close>; tuples are compared lexicographically\<close>
  "rank_key x = (quality_score x, - 1 * energy_num x)"

definition ranked :: "candidate list \<Rightarrow> candidate list" where
  \<comment> \<open>the stable sort by \<open>rank_key\<close> with \<^verbatim>\<open>reverse=True\<close>\<close>
  "ranked props = rev (sort_key rank_key (rev props))"

definition sorted_by_rank :: "candidate list \<Rightarrow> error + candidate list" where
  \<comment> \<open>\<^verbatim>\<open>sorted(props, key=lambda x: (x["quality_score"], -1.0 * x["energy"]), reverse=True)\<close>\<close>
  "sorted_by_rank props =
     (case first_error (map (\<lambda>x. num_of (energy x)) props) of
        Some e \<Rightarrow> Inl e
      | None \<Rightarrow> Inr (ranked props))"

definition resolve_field :: "candidate list \<Rightarrow> error + candidate" where
  \<comment> \<open>the body of the loop over the groups: the entry appended to \<^verbatim>\<open>best_props\<close>\<close>
  "resolve_field props =
     (case sorted_by_rank props of
        Inl e \<Rightarrow> Inl e
      | Inr [] \<Rightarrow> Inl IndexError
      | Inr (b # rest) \<Rightarrow>
          if aggregate b
          then Inr (b\<lparr> value := VList (map value (b # rest)), track := False \<rparr>)
          else Inr b)"

fun resolve_all :: "(string \<times> candidate list) list \<Rightarrow> error + candidate list" where
  "resolve_all [] = Inr []"
| "resolve_all ((k, props) # gs) =
     (case resolve_field props of
        Inl e \<Rightarrow> Inl e
      | Inr b \<Rightarrow> (case resolve_all gs of Inl e \<Rightarrow> Inl e | Inr bs \<Rightarrow> Inr (b # bs)))"

definition grouped_props :: "candidate list \<Rightarrow> (string \<times> candidate list) list" where
  "grouped_props all_props = groupby molecules_key (sort_key molecules_key all_props)"

definition best_props :: "candidate list \<Rightarrow> error + candidate list" where
  "best_props all_props = resolve_all (grouped_props all_props)"

text \<open>
  For the statements below: the candidates of one molecules key, in the order of the input,
  and the order "higher quality score first, then lower energy first".
\<close>

definition field_props :: "string \<Rightarrow> candidate list \<Rightarrow> candidate list" where
  "field_props k props = filter (\<lambda>c. molecules_key c = k) props"

definition outranks :: "candidate \<Rightarrow> candidate \<Rightarrow> bool" where
  "outranks c d =
     (quality_score d < quality_score c
      \<or> (quality_score d = quality_score c \<and> energy_num c \<le> energy_num d))"

subsection \<open>Origins\<close>

record origin =
  o_molecules_key :: string
  o_task_type :: string
  o_task_id :: atom
  o_last_updated :: int

definition origin_of :: "candidate \<Rightarrow> origin" where
  "origin_of p =
     \<lparr> o_molecules_key = molecules_key p, o_task_type = task_type p,
       o_task_id = task_id p, o_last_updated = last_updated p \<rparr>"

definition origins_of :: "candidate list \<Rightarrow> origin list" where
  \<comment> \<open>\<^verbatim>\<open>[{...} for prop in best_props if prop.get("track", False)]\<close>\<close>
  "origins_of best = map origin_of (filter track best)"

definition origin_doc :: "origin \<Rightarrow> pyval" where
  "origin_doc og =
     VDict [(AStr ''molecules_key'', VAtom (AStr (o_molecules_key og))),
            (AStr ''task_type'', VAtom (AStr (o_task_type og))),
            (AStr ''task_id'', VAtom (o_task_id og)),
            (AStr ''last_updated'', VTime (o_last_updated og))]"

subsection \<open>\<^verbatim>\<open>structure_metadata\<close>\<close>

text \<open>
  What \<^verbatim>\<open>structure_metadata\<close> reads of a pymatgen structure: the number of sites, the symbols
  of the elements of its composition, and the dictionaries and formulas that pymatgen
  derives from the composition.
\<close>

record structure_info =
  num_sites :: nat
  element_symbols :: "string list"
  composition_dict :: "(string \<times> rat) list"
  reduced_composition_dict :: "(string \<times> rat) list"
  reduced_formula :: string
  anonymized_formula :: string

fun join :: "string \<Rightarrow> string list \<Rightarrow> string" where
  \<comment> \<open>\<^verbatim>\<open>sep.join(xs)\<close>\<close>
  "join sep [] = []"
| "join sep [x] = x"
| "join sep (x # y # ys) = x @ sep @ join sep (y # ys)"

definition structure_metadata :: "structure_info \<Rightarrow> dict" where
  "structure_metadata st =
     (let elsyms = sort (remdups (element_symbols st)) in
      [(AStr ''nsites'', VAtom (ANum (int (num_sites st)))),
       (AStr ''elements'', VList (map (\<lambda>e. VAtom (AStr e)) elsyms)),
       (AStr ''nelements'', VAtom (ANum (int (length elsyms)))),
       (AStr ''composition'', VDict (map (\<lambda>(e, n). (AStr e, VReal n)) (composition_dict st))),
       (AStr ''composition_reduced'',
        VDict (map (\<lambda>(e, n). (AStr e, VReal n)) (reduced_composition_dict st))),
       (AStr ''formula_pretty'', VAtom (AStr (reduced_formula st))),
       (AStr ''formula_anonymous'', VAtom (AStr (anonymized_formula st))),
       (AStr ''chemsys'', VAtom (AStr (join ''-'' elsyms)))])"

definition structure_name :: "error + structure_info" where
  \<comment> \<open>the name \<^verbatim>\<open>structure\<close> as \<^verbatim>\<open>make_mol\<close> reads it: bound neither in the function nor in the
      module, so reading it raises a NameError\<close>
  "structure_name = Inl NameError"

subsection \<open>\<^verbatim>\<open>make_mol\<close>\<close>

fun py_max :: "int list \<Rightarrow> error + int" where
  "py_max [] = Inl ValueError"
| "py_max (x # xs) = Inr (fold max xs x)"

fun py_min :: "int list \<Rightarrow> error + int" where
  "py_min [] = Inl ValueError"
| "py_min (x # xs) = Inr (fold min xs x)"

definition all_props_of :: "rule list \<Rightarrow> task list \<Rightarrow> candidate list" where
  \<comment> \<open>\<^verbatim>\<open>list(chain.from_iterable([self.task_to_prop_list(t) for t in task_group]))\<close>\<close>
  "all_props_of settings task_group = concat (map (task_to_prop_list settings) task_group)"

fun set_all :: "candidate list \<Rightarrow> dict \<Rightarrow> error + dict" where
  \<comment> \<open>\<^verbatim>\<open>for prop in best_props: set_(mol, prop["molecules_key"], prop["value"])\<close>\<close>
  "set_all [] mol = Inr mol"
| "set_all (p # ps) mol =
     (case set_at mol (molecules_key p) (value p) of
        Inl e \<Rightarrow> Inl e
      | Inr mol' \<Rightarrow> set_all ps mol')"

definition mol_literal ::
  "int \<Rightarrow> int \<Rightarrow> atom list \<Rightarrow> atom \<Rightarrow> origin list \<Rightarrow> (atom \<times> string) list \<Rightarrow> dict" where
  \<comment> \<open>the dictionary \<^verbatim>\<open>mol = {...}\<close>\<close>
  "mol_literal lu created task_ids mol_id origins task_types =
     [(AStr lu_field, VTime lu),
      (AStr ''created_at'', VTime created),
      (AStr ''task_ids'', VList (map VAtom task_ids)),
      (AStr store_key, VAtom mol_id),
      (AStr ''origins'', VList (map origin_doc origins)),
      (AStr ''task_types'', VDict (map (\<lambda>(i, ty). (i, VAtom (AStr ty))) task_types))]"

definition task_types_of :: "candidate list \<Rightarrow> (atom \<times> string) list" where
  \<comment> \<open>\<^verbatim>\<open>{t["task_id"]: t["task_type"] for t in all_props}\<close>\<close>
  "task_types_of all_props =
     fold (\<lambda>p d. AList.update (task_id p) (task_type p) d) all_props []"

definition make_mol :: "rule list \<Rightarrow> task list \<Rightarrow> error + dict" where
  "make_mol settings task_group =
     (let all_props = all_props_of settings task_group in
      case mol_id_of all_props of
        Inl e \<Rightarrow> Inl e
      | Inr mol_id \<Rightarrow>
      (case best_props all_props of
        Inl e \<Rightarrow> Inl e
      | Inr best \<Rightarrow>
      (let origins = origins_of best;
           task_ids = remdups (map t_task_id task_group);
           task_types = task_types_of all_props
       in
       case py_max (map last_updated all_props) of
         Inl e \<Rightarrow> Inl e
       | Inr lu \<Rightarrow>
       (case py_min (map last_updated all_props) of
         Inl e \<Rightarrow> Inl e
       | Inr created \<Rightarrow>
       (case set_all best (mol_literal lu created task_ids mol_id origins task_types) of
         Inl e \<Rightarrow> Inl e
       | Inr mol \<Rightarrow>
           if has_key (AStr ''structure'') mol
           then \<comment> \<open>\<^verbatim>\<open>mol.update(structure_metadata(structure))\<close>\<close>
             (case structure_name of
                Inl e \<Rightarrow> Inl e
              | Inr st \<Rightarrow> Inr (fold (\<lambda>(k, v). AList.update k v) (structure_metadata st) mol))
           else Inr mol)))))"

subsection \<open>\<^verbatim>\<open>process_item\<close>\<close>

definition allowed_tasks :: "rule list \<Rightarrow> string set" where
  \<comment> \<open>\<^verbatim>\<open>{t_type for d in self.__settings for t_type in d["quality_score"]}\<close>\<close>
  "allowed_tasks settings = set (concat (map (\<lambda>d. map fst (r_quality_score d)) settings))"

text \<open>A structure is the molecule of a task together with its \<^verbatim>\<open>index\<close>.\<close>

type_synonym struc = "nat \<times> pyval"

definition initial_molecule :: "task \<Rightarrow> error + pyval" where
  \<comment> \<open>\<^verbatim>\<open>t["output"]["initial_molecule"]\<close>\<close>
  "initial_molecule t =
     (case map_of (task_doc t) (AStr ''output'') of
        None \<Rightarrow> Inl KeyError
      | Some (VDict out) \<Rightarrow>
          (case map_of out (AStr ''initial_molecule'') of
             None \<Rightarrow> Inl KeyError
           | Some m \<Rightarrow> Inr m)
      | Some _ \<Rightarrow> Inl TypeError)"

fun structures_of :: "nat \<Rightarrow> task list \<Rightarrow> error + struc list" where
  \<comment> \<open>the loop over \<^verbatim>\<open>enumerate(filtered_tasks)\<close>\<close>
  "structures_of idx [] = Inr []"
| "structures_of idx (t # ts) =
     (case initial_molecule t of
        Inl e \<Rightarrow> Inl e
      | Inr m \<Rightarrow>
          (case structures_of (Suc idx) ts of
             Inl e \<Rightarrow> Inl e
           | Inr ss \<Rightarrow> Inr ((idx, m) # ss)))"

definition group_structures :: "struc list \<Rightarrow> error + struc list list" where
  \<comment> \<open>\<^verbatim>\<open>raise NotImplemented("...")\<close>: \<^verbatim>\<open>NotImplemented\<close> is not callable, so the call itself
      raises a TypeError\<close>
  "group_structures structures = Inl TypeError"

fun tasks_of_group :: "task list \<Rightarrow> struc list \<Rightarrow> error + task list" where
  \<comment> \<open>\<^verbatim>\<open>[filtered_tasks[struc.index] for struc in group]\<close>\<close>
  "tasks_of_group ft [] = Inr []"
| "tasks_of_group ft ((i, m) # ss) =
     (if i < length ft
      then (case tasks_of_group ft ss of Inl e \<Rightarrow> Inl e | Inr ts \<Rightarrow> Inr (ft ! i # ts))
      else Inl IndexError)"

fun make_mols :: "rule list \<Rightarrow> task list \<Rightarrow> struc list list \<Rightarrow> error + dict list" where
  \<comment> \<open>\<^verbatim>\<open>for group in grouped_tasks: molecules.append(self.make_mol(group))\<close>, the groups
      being produced one at a time by the generator\<close>
  "make_mols settings ft [] = Inr []"
| "make_mols settings ft (g # gs) =
     (case tasks_of_group ft g of
        Inl e \<Rightarrow> Inl e
      | Inr task_group \<Rightarrow>
          (case make_mol settings task_group of
             Inl e \<Rightarrow> Inl e
           | Inr m \<Rightarrow>
               (case make_mols settings ft gs of
                  Inl e \<Rightarrow> Inl e
                | Inr ms \<Rightarrow> Inr (m # ms))))"

definition process_item_with ::
  "(struc list \<Rightarrow> error + struc list list) \<Rightarrow> rule list \<Rightarrow> task list \<Rightarrow> error + dict list"
  where
  \<comment> \<open>\<^verbatim>\<open>process_item\<close> with the function that groups the structures as a parameter\<close>
  "process_item_with grouper settings tasks =
     (case tasks of
        [] \<Rightarrow> Inl IndexError
      | t0 # rest \<Rightarrow>
          (let filtered_tasks = filter (\<lambda>t. t_task_type t \<in> allowed_tasks settings) tasks in
           case structures_of 0 filtered_tasks of
             Inl e \<Rightarrow> Inl e
           | Inr structures \<Rightarrow>
               (case grouper structures of
                  Inl e \<Rightarrow> Inl e
                | Inr grouped_structures \<Rightarrow> make_mols settings filtered_tasks grouped_structures)))"

definition process_item :: "rule list \<Rightarrow> task list \<Rightarrow> error + dict list" where
  "process_item settings tasks = process_item_with group_structures settings tasks"


subsection \<open>\<^verbatim>\<open>valid\<close> and \<^verbatim>\<open>update_targets\<close>\<close>

definition valid :: "dict \<Rightarrow> bool" where
  "valid doc = has_key (AStr ''structure'') doc"

definition update_targets :: "int \<Rightarrow> dict list list \<Rightarrow> dict list option" where
  \<comment> \<open>the documents handed to \<^verbatim>\<open>self.molecules.update\<close>; \<open>None\<close> when it is not called.
      \<^verbatim>\<open>filter(None, ...)\<close> drops the empty documents.\<close>
  "update_targets timestamp items =
     (let its = filter valid (filter (\<lambda>i. i \<noteq> []) (concat items));
          stamped = map (AList.update (AStr ''_bt'') (VTime timestamp)) its
      in if length stamped > 0 then Some stamped else None)"

subsection \<open>\<^verbatim>\<open>get_items\<close>\<close>

text \<open>
  A query is a dictionary from field names to conditions; a task matches when it meets the
  condition of every key. The task store is the list of its documents, the molecule store
  the list of the molecule documents.
\<close>

type_synonym criteria = "(string \<times> (task \<Rightarrow> bool)) list"

definition matches :: "criteria \<Rightarrow> task \<Rightarrow> bool" where
  "matches q t = list_all (\<lambda>k. case map_of q k of None \<Rightarrow> True | Some c \<Rightarrow> c t) (map fst q)"

definition distinct_of :: "(task \<Rightarrow> 'a) \<Rightarrow> criteria \<Rightarrow> task list \<Rightarrow> 'a list" where
  \<comment> \<open>\<^verbatim>\<open>self.tasks.distinct(field, criteria)\<close>\<close>
  "distinct_of field q store = remdups (map field (filter (matches q) store))"

definition doc_task_ids :: "dict \<Rightarrow> atom list" where
  "doc_task_ids d =
     (case map_of d (AStr ''task_ids'') of
        Some (VList vs) \<Rightarrow> concat (map (\<lambda>v. case v of VAtom a \<Rightarrow> [a] | _ \<Rightarrow> []) vs)
      | Some (VAtom a) \<Rightarrow> [a]
      | _ \<Rightarrow> [])"

definition processed_tasks_of :: "dict list \<Rightarrow> atom set" where
  \<comment> \<open>\<^verbatim>\<open>set(self.molecules.distinct("task_ids"))\<close>\<close>
  "processed_tasks_of molecules = set (concat (map doc_task_ids molecules))"

definition lu_filter :: "int \<Rightarrow> criteria" where
  \<comment> \<open>\<^verbatim>\<open>self.tasks.lu_filter(self.molecules)\<close> of maggma: the tasks updated after the
      checkpoint of the molecule store\<close>
  "lu_filter checkpoint = [(lu_field, \<lambda>t. checkpoint < t_last_updated t)]"

definition dict_update :: "criteria \<Rightarrow> criteria \<Rightarrow> criteria" where
  \<comment> \<open>\<^verbatim>\<open>q.update(d)\<close>\<close>
  "dict_update q d = fold (\<lambda>(k, c) acc. AList.update k c acc) d q"

definition successful :: "criteria \<Rightarrow> criteria" where
  \<comment> \<open>\<^verbatim>\<open>q = dict(self.query); q["state"] = "successful"\<close>\<close>
  "successful query = AList.update ''state'' (\<lambda>t. t_state t = ''successful'') query"

definition to_process_forms :: "criteria \<Rightarrow> task list \<Rightarrow> dict list \<Rightarrow> string list" where
  "to_process_forms query tasks molecules =
     (let all_tasks = set (distinct_of t_task_id (successful query) tasks);
          to_process_tasks = all_tasks - processed_tasks_of molecules
      in distinct_of t_formula_pretty [(''task_id'', \<lambda>t. t_task_id t \<in> to_process_tasks)] tasks)"

definition updated_forms :: "criteria \<Rightarrow> int \<Rightarrow> task list \<Rightarrow> string list" where
  "updated_forms query checkpoint tasks =
     distinct_of t_formula_pretty (dict_update (successful query) (lu_filter checkpoint)) tasks"

definition forms_to_update :: "criteria \<Rightarrow> int \<Rightarrow> task list \<Rightarrow> dict list \<Rightarrow> string list" where
  \<comment> \<open>\<^verbatim>\<open>set(updated_forms) | set(to_process_forms)\<close> in the order of its iteration, which
      Python leaves open; the model lists the elements in the order of their first occurrence\<close>
  "forms_to_update query checkpoint tasks molecules =
     remdups (updated_forms query checkpoint tasks @ to_process_forms query tasks molecules)"

definition get_items :: "criteria \<Rightarrow> int \<Rightarrow> task list \<Rightarrow> dict list \<Rightarrow> task list list" where
  \<comment> \<open>the lists of tasks yielded, one for each formula\<close>
  "get_items query checkpoint tasks molecules =
     map (\<lambda>formula.
            filter (matches (AList.update ''formula_pretty'' (\<lambda>t. t_formula_pretty t = formula)
                               (successful query))) tasks)
         (forms_to_update query checkpoint tasks molecules)"

section \<open>Properties\<close>

subsection \<open>Sorting and grouping\<close>

lemma py_split_not_Nil: "py_split sep s \<noteq> []"
  by (induction s) (auto split: list.splits)

lemma first_error_None: "first_error ks = None \<longleftrightarrow> (\<forall>k\<in>set ks. \<exists>v. k = Inr v)"
  by (induction ks rule: first_error.induct) auto

lemma first_error_Some: "first_error ks = Some e \<Longrightarrow> Inl e \<in> set ks"
  by (induction ks rule: first_error.induct) auto


lemma run_split:
  fixes f :: "'a \<Rightarrow> 'k::linorder"
  assumes "sorted (map f xs)" and "\<forall>y\<in>set xs. a \<le> f y"
  shows "takeWhile (\<lambda>y. f y = a) xs = filter (\<lambda>y. f y = a) xs
       \<and> (\<forall>y\<in>set (dropWhile (\<lambda>y. f y = a) xs). a < f y)
       \<and> sorted (map f (dropWhile (\<lambda>y. f y = a) xs))"
  using assms
proof (induction xs)
  case Nil
  then show ?case by simp
next
  case (Cons y ys)
  show ?case
  proof (cases "f y = a")
    case True
    with Cons show ?thesis by simp
  next
    case False
    with Cons.prems have lt: "a < f y" by auto
    with Cons.prems have "\<forall>z\<in>set ys. a < f z" by fastforce
    then have "filter (\<lambda>z. f z = a) ys = []" by (auto simp: filter_empty_conv)
    with False lt Cons.prems \<open>\<forall>z\<in>set ys. a < f z\<close> show ?thesis by simp
  qed
qed

lemma takeWhile_holds: "y \<in> set (takeWhile P xs) \<Longrightarrow> P y"
  by (rule set_takeWhileD [THEN conjunct2])

lemma groupby_keys: "fst ` set (groupby f xs) = f ` set xs"
proof (induction f xs rule: groupby.induct)
  case (1 f)
  then show ?case by simp
next
  case (2 f x xs)
  let ?P = "\<lambda>y. f y = f x"
  have a: "f ` set (takeWhile ?P xs) \<subseteq> {f x}"
    by (auto dest: takeWhile_holds)
  have "set xs = set (takeWhile ?P xs @ dropWhile ?P xs)"
    by (simp only: takeWhile_dropWhile_id)
  then have b: "f ` set (x # xs)
      = insert (f x) (f ` set (takeWhile ?P xs) \<union> f ` set (dropWhile ?P xs))"
    by (simp only: set_append image_Un list.set image_insert)
  have "fst ` set (groupby f (x # xs)) = insert (f x) (f ` set (dropWhile ?P xs))"
    using 2 by simp
  also have "\<dots> = f ` set (x # xs)"
    unfolding b using a by blast
  finally show ?case .
qed

lemma groupby_sorted:
  fixes f :: "'a \<Rightarrow> 'k::linorder"
  assumes "sorted (map f xs)"
  shows "distinct (map fst (groupby f xs))
       \<and> (\<forall>(k, g)\<in>set (groupby f xs). g = filter (\<lambda>y. f y = k) xs \<and> g \<noteq> [])"
  using assms
proof (induction f xs rule: groupby.induct)
  case (1 f)
  then show ?case by simp
next
  case (2 f x xs)
  let ?P = "\<lambda>y. f y = f x"
  from "2.prems" have s: "sorted (map f xs)" and ge: "\<forall>y\<in>set xs. f x \<le> f y" by auto
  note rs = run_split [OF s ge]
  from rs have tw: "takeWhile ?P xs = filter ?P xs"
    and gt: "\<forall>y\<in>set (dropWhile ?P xs). f x < f y"
    and sd: "sorted (map f (dropWhile ?P xs))" by auto
  note IH = "2.IH" [OF sd]
  have notin: "f x \<notin> fst ` set (groupby f (dropWhile ?P xs))"
    using gt by (auto simp: groupby_keys)
  have rest: "g = filter (\<lambda>y. f y = k) (x # xs) \<and> g \<noteq> []"
    if "(k, g) \<in> set (groupby f (dropWhile ?P xs))" for k g
  proof -
    from that IH have g: "g = filter (\<lambda>y. f y = k) (dropWhile ?P xs)" and ne: "g \<noteq> []" by auto
    from that notin have kx: "k \<noteq> f x" by force
    have "filter (\<lambda>y. f y = k) xs
        = filter (\<lambda>y. f y = k) (takeWhile ?P xs) @ filter (\<lambda>y. f y = k) (dropWhile ?P xs)"
      by (metis filter_append takeWhile_dropWhile_id)
    moreover have "filter (\<lambda>y. f y = k) (takeWhile ?P xs) = []"
      using kx by (auto simp: filter_empty_conv dest: takeWhile_holds)
    ultimately show ?thesis using g ne kx by auto
  qed
  have d: "distinct (map fst (groupby f (x # xs)))"
    using IH notin by simp
  have h: "x # takeWhile ?P xs = filter (\<lambda>y. f y = f x) (x # xs)"
    using tw by simp
  have "g = filter (\<lambda>y. f y = k) (x # xs) \<and> g \<noteq> []"
    if "(k, g) \<in> set (groupby f (x # xs))" for k g
  proof -
    from that have "(k, g) = (f x, x # takeWhile ?P xs) \<or> (k, g) \<in> set (groupby f (dropWhile ?P xs))"
      by simp
    then show ?thesis
    proof
      assume "(k, g) = (f x, x # takeWhile ?P xs)"
      then have "k = f x" and "g = x # takeWhile ?P xs" by simp_all
      then show ?thesis using h by simp
    next
      assume "(k, g) \<in> set (groupby f (dropWhile ?P xs))"
      then show ?thesis by (rule rest)
    qed
  qed
  with d show ?case by blast
qed

subsection \<open>A group without candidates\<close>

lemma mol_id_of_Nil: "mol_id_of [] = Inl IndexError"
  by (simp add: mol_id_of_def possible_mol_ids_def sorted_by_ID_def)

text \<open>
  Claim C10: \<^verbatim>\<open>make_mol\<close> needs at least one candidate property. For a non-empty task group
  in which no task yields a candidate, the list of possible molecule ids is empty and
  \<^verbatim>\<open>make_mol\<close> fails with the IndexError of \<^verbatim>\<open>possible_mol_ids[0]\<close> instead of returning a
  document; \<^verbatim>\<open>max\<close> and \<^verbatim>\<open>min\<close> over the empty list of \<^verbatim>\<open>last_updated\<close> values fail as well.
\<close>

theorem make_mol_no_candidates:
  "task_group \<noteq> [] \<Longrightarrow> \<forall>t\<in>set task_group. task_to_prop_list settings t = [] \<Longrightarrow>
     all_props_of settings task_group = []
   \<and> possible_mol_ids (all_props_of settings task_group) = Inr []
   \<and> make_mol settings task_group = Inl IndexError
   \<and> py_max (map last_updated (all_props_of settings task_group)) = Inl ValueError
   \<and> py_min (map last_updated (all_props_of settings task_group)) = Inl ValueError"
proof -
  assume "\<forall>t\<in>set task_group. task_to_prop_list settings t = []"
  then have e: "all_props_of settings task_group = []"
    by (simp add: all_props_of_def)
  have "make_mol settings task_group = Inl IndexError"
    by (simp add: make_mol_def e mol_id_of_Nil)
  then show ?thesis
    by (simp add: e possible_mol_ids_def sorted_by_ID_def)
qed

theorem make_mol_no_candidates_witness:
  "task_to_prop_list
     [\<lparr> r_molecules_key = ''charge'', r_tasks_key = ''output.charge'',
        r_quality_score = [(''optimization'', 2)], r_optional = True, r_track = False,
        r_aggregate = False \<rparr>]
     \<lparr> t_task_id = AStr ''eg-1'', t_task_type = ''optimization'', t_formula_pretty = ''H2O'',
       t_state = ''successful'', t_last_updated = 10,
       t_body = [(AStr ''output'', VDict [(AStr ''energy'', VReal (- 76))])] \<rparr> = []
   \<and> make_mol
     [\<lparr> r_molecules_key = ''charge'', r_tasks_key = ''output.charge'',
        r_quality_score = [(''optimization'', 2)], r_optional = True, r_track = False,
        r_aggregate = False \<rparr>]
     [\<lparr> t_task_id = AStr ''eg-1'', t_task_type = ''optimization'', t_formula_pretty = ''H2O'',
        t_state = ''successful'', t_last_updated = 10,
        t_body = [(AStr ''output'', VDict [(AStr ''energy'', VReal (- 76))])] \<rparr>]
     = Inl IndexError"
proof -
  have h: "task_to_prop_list
     [\<lparr> r_molecules_key = ''charge'', r_tasks_key = ''output.charge'',
        r_quality_score = [(''optimization'', 2)], r_optional = True, r_track = False,
        r_aggregate = False \<rparr>]
     \<lparr> t_task_id = AStr ''eg-1'', t_task_type = ''optimization'', t_formula_pretty = ''H2O'',
       t_state = ''successful'', t_last_updated = 10,
       t_body = [(AStr ''output'', VDict [(AStr ''energy'', VReal (- 76))])] \<rparr> = []"
    by code_simp
  show ?thesis
    using h make_mol_no_candidates [of
      "[\<lparr> t_task_id = AStr ''eg-1'', t_task_type = ''optimization'', t_formula_pretty = ''H2O'',
        t_state = ''successful'', t_last_updated = 10,
        t_body = [(AStr ''output'', VDict [(AStr ''energy'', VReal (- 76))])] \<rparr>]"
      "[\<lparr> r_molecules_key = ''charge'', r_tasks_key = ''output.charge'',
        r_quality_score = [(''optimization'', 2)], r_optional = True, r_track = False,
        r_aggregate = False \<rparr>]"]
    by simp
qed

subsection \<open>The structural field\<close>

lemma make_mol_not_valid:
  "make_mol settings task_group = Inr d \<Longrightarrow> \<not> has_key (AStr ''structure'') d"
  by (auto simp: make_mol_def structure_name_def Let_def split: sum.splits if_splits)

text \<open>
  \<^verbatim>\<open>structure_metadata\<close> itself computes the metadata: for instance the chemical system is
  the sorted element symbols joined by a hyphen.
\<close>

lemma structure_metadata_water:
  "map_of (structure_metadata
     \<lparr> num_sites = 3, element_symbols = [''O'', ''H''],
       composition_dict = [(''O'', 1), (''H'', 2)],
       reduced_composition_dict = [(''O'', 1), (''H'', 2)],
       reduced_formula = ''H2O'', anonymized_formula = ''AB2'' \<rparr>) (AStr ''chemsys'')
   = Some (VAtom (AStr ''H-O''))"
  by code_simp

text \<open>
  Claim C4: a document that contains the structural field is enriched with the metadata of
  that structure. The code reads the unbound name \<^verbatim>\<open>structure\<close> there: a task group whose
  document receives the key \<^verbatim>\<open>structure\<close> makes \<^verbatim>\<open>make_mol\<close> fail with a NameError, and no
  document is returned.
\<close>

theorem make_mol_structure_NameError:
  "make_mol
     [\<lparr> r_molecules_key = ''structure'', r_tasks_key = ''output.optimized_molecule'',
        r_quality_score = [(''optimization'', 2)], r_optional = False, r_track = True,
        r_aggregate = False \<rparr>]
     [\<lparr> t_task_id = AStr ''eg-1'', t_task_type = ''optimization'', t_formula_pretty = ''H2O'',
        t_state = ''successful'', t_last_updated = 10,
        t_body = [(AStr ''output'', VDict [(AStr ''optimized_molecule'', VAtom (AStr ''O H H'')),
                                          (AStr ''energy'', VReal (- 76))])] \<rparr>]
   = Inl NameError"
  by code_simp

subsection \<open>The best property of a molecules key\<close>

lemma rank_key_le: "rank_key d \<le> rank_key c \<longleftrightarrow> outranks c d"
  by (auto simp: rank_key_def outranks_def less_eq_prod_def)


lemma ranked_set: "set (ranked g) = set g"
  by (simp add: ranked_def)


lemma ranked_sorted: "sorted_wrt outranks (ranked g)"
proof -
  have "sorted (map rank_key (sort_key rank_key (rev g)))"
    by (rule sorted_sort_key)
  then have "sorted_wrt (\<lambda>x y. rank_key x \<le> rank_key y) (sort_key rank_key (rev g))"
    by (simp only: sorted_map)
  then have "sorted_wrt (\<lambda>x y. rank_key y \<le> rank_key x) (ranked g)"
    by (simp add: ranked_def sorted_wrt_rev)
  then show ?thesis
    by (simp add: rank_key_le [abs_def])
qed

lemma ranked_hd:
  assumes "ranked g = w # rest"
  shows "w \<in> set g" and "\<forall>c\<in>set g. outranks w c"
proof -
  have s: "set g = set (w # rest)" using ranked_set [of g] assms by simp
  show "w \<in> set g" unfolding s by simp
  have "sorted_wrt outranks (w # rest)" using ranked_sorted [of g] assms by simp
  moreover have "outranks w w" by (simp add: outranks_def)
  ultimately show "\<forall>c\<in>set g. outranks w c" unfolding s by auto
qed

lemma sorted_by_rank_Inr:
  assumes "sorted_by_rank g = Inr ys"
  shows "ys = ranked g" and "\<forall>c\<in>set g. num_of (energy c) = Inr (energy_num c)"
proof -
  from assms have fe: "first_error (map (\<lambda>x. num_of (energy x)) g) = None"
    and ys: "ys = ranked g"
    by (auto simp: sorted_by_rank_def split: option.splits)
  show "ys = ranked g" by (rule ys)
  from fe have "\<forall>c\<in>set g. \<exists>v. num_of (energy c) = Inr v"
    by (simp add: first_error_None)
  then show "\<forall>c\<in>set g. num_of (energy c) = Inr (energy_num c)"
    by (auto simp: energy_num_def)
qed

lemma resolve_field_Inr:
  assumes "resolve_field g = Inr b"
  shows "\<exists>w rest. ranked g = w # rest
           \<and> b = (if aggregate w
                  then w\<lparr> value := VList (map value (w # rest)), track := False \<rparr> else w)"
    and "\<forall>c\<in>set g. num_of (energy c) = Inr (energy_num c)"
proof -
  from assms obtain ys where ys: "sorted_by_rank g = Inr ys"
    by (auto simp: resolve_field_def split: sum.splits)
  note r = sorted_by_rank_Inr [OF ys]
  show "\<forall>c\<in>set g. num_of (energy c) = Inr (energy_num c)" by (rule r(2))
  from assms ys r(1) show "\<exists>w rest. ranked g = w # rest
           \<and> b = (if aggregate w
                  then w\<lparr> value := VList (map value (w # rest)), track := False \<rparr> else w)"
    by (auto simp: resolve_field_def split: list.splits if_splits)
qed

lemma resolve_field_key:
  assumes "resolve_field g = Inr b" and "\<forall>c\<in>set g. molecules_key c = k"
  shows "molecules_key b = k"
proof -
  from resolve_field_Inr(1) [OF assms(1)] obtain w rest where
    w: "ranked g = w # rest" and
    b: "b = (if aggregate w
             then w\<lparr> value := VList (map value (w # rest)), track := False \<rparr> else w)"
    by blast
  have "w \<in> set g" using ranked_hd(1) [OF w] .
  then have "molecules_key w = k" using assms(2) by simp
  then show ?thesis using b by (simp split: if_splits)
qed

lemma resolve_all_Inr:
  "resolve_all gs = Inr bs \<Longrightarrow> list_all2 (\<lambda>g b. resolve_field (snd g) = Inr b) gs bs"
proof (induction gs arbitrary: bs)
  case Nil
  then show ?case by simp
next
  case (Cons g gs)
  obtain k props where g: "g = (k, props)" by (cases g)
  from Cons.prems g obtain b bs' where "resolve_field props = Inr b"
    and "resolve_all gs = Inr bs'" and "bs = b # bs'"
    by (auto split: sum.splits)
  then show ?case using Cons.IH g by simp
qed

lemma grouped_props_char:
  shows "distinct (map fst (grouped_props props))"
    and "fst ` set (grouped_props props) = molecules_key ` set props"
    and "(k, g) \<in> set (grouped_props props) \<Longrightarrow> g = field_props k props \<and> g \<noteq> []"
proof -
  let ?xs = "sort_key molecules_key props"
  have s: "sorted (map molecules_key ?xs)" by (rule sorted_sort_key)
  note gs = groupby_sorted [OF s]
  show "distinct (map fst (grouped_props props))"
    using gs by (simp add: grouped_props_def)
  show "fst ` set (grouped_props props) = molecules_key ` set props"
    by (simp add: grouped_props_def groupby_keys)
  assume "(k, g) \<in> set (grouped_props props)"
  then have g1: "g = filter (\<lambda>y. molecules_key y = k) ?xs" and g2: "g \<noteq> []"
    using gs by (auto simp: grouped_props_def)
  have "filter (\<lambda>y. molecules_key y = k) ?xs = field_props k props"
    by (simp add: field_props_def sort_key_stable)
  with g1 have "g = field_props k props" by simp
  with g2 show "g = field_props k props \<and> g \<noteq> []" by simp
qed

lemma best_props_fields:
  assumes "best_props props = Inr best"
  shows "distinct (map molecules_key best)"
    and "molecules_key ` set best = molecules_key ` set props"
    and "\<forall>b\<in>set best. resolve_field (field_props (molecules_key b) props) = Inr b"
proof -
  let ?gs = "grouped_props props"
  have la: "list_all2 (\<lambda>g b. resolve_field (snd g) = Inr b) ?gs best"
    using assms by (simp add: best_props_def resolve_all_Inr)
  have step: "molecules_key b = fst g \<and> resolve_field (field_props (molecules_key b) props) = Inr b"
    if "g \<in> set ?gs" and "resolve_field (snd g) = Inr b" for g b
  proof -
    obtain k ps where g: "g = (k, ps)" by (cases g)
    from that(1) g have ps: "ps = field_props k props" using grouped_props_char(3) by blast
    then have "\<forall>c\<in>set ps. molecules_key c = k" by (simp add: field_props_def)
    with that(2) g have "molecules_key b = k" using resolve_field_key by simp
    with that(2) g ps show ?thesis by simp
  qed
  have la2: "list_all2 (\<lambda>g b. molecules_key b = fst g
      \<and> resolve_field (field_props (molecules_key b) props) = Inr b) ?gs best"
    using la by (rule list.rel_mono_strong) (rule step)
  then have keys: "map molecules_key best = map fst ?gs"
    by (auto simp: list_all2_conv_all_nth intro: nth_equalityI)
  show "distinct (map molecules_key best)"
    using keys grouped_props_char(1) by simp
  have "molecules_key ` set best = set (map molecules_key best)" by simp
  also have "\<dots> = fst ` set ?gs" unfolding keys by simp
  finally show "molecules_key ` set best = molecules_key ` set props"
    using grouped_props_char(2) by simp
  show "\<forall>b\<in>set best. resolve_field (field_props (molecules_key b) props) = Inr b"
    using la2 by (auto simp: list_all2_conv_all_nth in_set_conv_nth)
qed


lemma resolve_field_winner:
  assumes "resolve_field g = Inr b"
  shows "\<exists>w rest. ranked g = w # rest \<and> w \<in> set g \<and> (\<forall>c\<in>set g. outranks w c)
           \<and> aggregate b = aggregate w
           \<and> (aggregate w \<longrightarrow> b = w\<lparr> value := VList (map value (w # rest)), track := False \<rparr>)
           \<and> (\<not> aggregate w \<longrightarrow> b = w)"
proof -
  from resolve_field_Inr(1) [OF assms] obtain w rest where
    w: "ranked g = w # rest" and
    b: "b = (if aggregate w
             then w\<lparr> value := VList (map value (w # rest)), track := False \<rparr> else w)"
    by blast
  note h = ranked_hd [OF w]
  have "aggregate b = aggregate w" using b by (simp split: if_splits)
  with w h b show ?thesis by simp
qed



lemma field_props_set: "set (field_props k props) = {c \<in> set props. molecules_key c = k}"
  by (auto simp: field_props_def)

lemma filter_distinct_key:
  "distinct (map f xs) \<Longrightarrow> x \<in> set xs \<Longrightarrow> filter (\<lambda>y. f y = f x) xs = [x]"
proof (induction xs)
  case Nil
  then show ?case by simp
next
  case (Cons a xs)
  show ?case
  proof (cases "a = x")
    case True
    from Cons.prems(1) have "f a \<notin> f ` set xs" by simp
    then have "\<forall>y\<in>set xs. f y \<noteq> f x" unfolding True by (metis imageI)
    then have "filter (\<lambda>y. f y = f x) xs = []" by (simp add: filter_empty_conv)
    with True show ?thesis by simp
  next
    case False
    with Cons.prems(2) have x: "x \<in> set xs" by simp
    from Cons.prems(1) have "f a \<notin> f ` set xs" and d: "distinct (map f xs)" by simp_all
    with x have "f a \<noteq> f x" by (metis imageI)
    with Cons.IH [OF d x] show ?thesis by simp
  qed
qed






text \<open>
  Claim C6: for every resolved property with \<open>track = true\<close> exactly one origin is emitted
  for its field, with the molecules key, task type, task id and \<open>last_updated\<close> of the
  winning candidate (the resolved property is that candidate); for an aggregated or
  untracked resolved property no origin is emitted.
\<close>

theorem origins_of_best:
  assumes "best_props props = Inr best" and "b \<in> set best"
  shows "length (filter (\<lambda>og. o_molecules_key og = molecules_key b) (origins_of best))
           = (if track b then 1 else 0)
       \<and> (track b \<longrightarrow>
             b \<in> set props \<and> \<not> aggregate b
           \<and> \<lparr> o_molecules_key = molecules_key b, o_task_type = task_type b,
               o_task_id = task_id b, o_last_updated = last_updated b \<rparr> \<in> set (origins_of best))
       \<and> (aggregate b \<longrightarrow> \<not> track b)
       \<and> length (origins_of best) = length (filter track best)"
proof -
  let ?F = "field_props (molecules_key b) props"
  note bf = best_props_fields [OF assms(1)]
  from bf(3) assms(2) have rf: "resolve_field ?F = Inr b" by simp
  from resolve_field_winner [OF rf] obtain w rest where w: "w \<in> set ?F"
    and agg: "aggregate b = aggregate w"
    and upd: "aggregate w \<Longrightarrow> b = w\<lparr> value := VList (map value (w # rest)), track := False \<rparr>"
    and same: "\<not> aggregate w \<Longrightarrow> b = w"
    by blast
  have 3: "aggregate b \<longrightarrow> \<not> track b" using agg upd by auto
  have t2: "track b \<longrightarrow> b \<in> set props \<and> \<not> aggregate b"
    using 3 agg same w by (auto simp: field_props_set)
  have t3: "track b \<longrightarrow> origin_of b \<in> set (origins_of best)"
    using assms(2) by (auto simp: origins_of_def)
  have "filter (\<lambda>og. o_molecules_key og = molecules_key b) (origins_of best)
      = map origin_of (filter track (filter (\<lambda>y. molecules_key y = molecules_key b) best))"
    by (simp add: origins_of_def filter_map comp_def origin_of_def conj_commute)
  also have "\<dots> = map origin_of (filter track [b])"
    using filter_distinct_key [OF bf(1) assms(2)] by simp
  finally have 1: "length (filter (\<lambda>og. o_molecules_key og = molecules_key b) (origins_of best))
           = (if track b then 1 else 0)" by simp
  show ?thesis using 1 t2 t3 3 by (simp add: origin_of_def origins_of_def)
qed

theorem origins_of_best_witness:
  "best_props
     [\<lparr> value = VReal (- 5), task_type = ''sp'', task_id = AStr ''t1'',
        quality_score = 10, track = True, aggregate = False, last_updated = 1,
        energy = VReal (- 5), molecules_key = ''energy_result'' \<rparr>,
      \<lparr> value = VReal (- 7), task_type = ''sp'', task_id = AStr ''t2'',
        quality_score = 10, track = True, aggregate = False, last_updated = 2,
        energy = VReal (- 7), molecules_key = ''energy_result'' \<rparr>,
      \<lparr> value = VReal (- 100), task_type = ''opt'', task_id = AStr ''t3'',
        quality_score = 5, track = True, aggregate = False, last_updated = 3,
        energy = VReal (- 100), molecules_key = ''energy_result'' \<rparr>]
   = Inr [\<lparr> value = VReal (- 7), task_type = ''sp'', task_id = AStr ''t2'',
        quality_score = 10, track = True, aggregate = False, last_updated = 2,
        energy = VReal (- 7), molecules_key = ''energy_result'' \<rparr>]
   \<and> origins_of [\<lparr> value = VReal (- 7), task_type = ''sp'', task_id = AStr ''t2'',
        quality_score = 10, track = True, aggregate = False, last_updated = 2,
        energy = VReal (- 7), molecules_key = ''energy_result'' \<rparr>]
   = [\<lparr> o_molecules_key = ''energy_result'', o_task_type = ''sp'', o_task_id = AStr ''t2'',
        o_last_updated = 2 \<rparr>]"
proof -
  have h: "best_props
     [\<lparr> value = VReal (- 5), task_type = ''sp'', task_id = AStr ''t1'',
        quality_score = 10, track = True, aggregate = False, last_updated = 1,
        energy = VReal (- 5), molecules_key = ''energy_result'' \<rparr>,
      \<lparr> value = VReal (- 7), task_type = ''sp'', task_id = AStr ''t2'',
        quality_score = 10, track = True, aggregate = False, last_updated = 2,
        energy = VReal (- 7), molecules_key = ''energy_result'' \<rparr>,
      \<lparr> value = VReal (- 100), task_type = ''opt'', task_id = AStr ''t3'',
        quality_score = 5, track = True, aggregate = False, last_updated = 3,
        energy = VReal (- 100), molecules_key = ''energy_result'' \<rparr>]
   = Inr [\<lparr> value = VReal (- 7), task_type = ''sp'', task_id = AStr ''t2'',
        quality_score = 10, track = True, aggregate = False, last_updated = 2,
        energy = VReal (- 7), molecules_key = ''energy_result'' \<rparr>]"
    by code_simp
  show ?thesis
    using h origins_of_best [OF h, of
      "\<lparr> value = VReal (- 7), task_type = ''sp'', task_id = AStr ''t2'',
        quality_score = 10, track = True, aggregate = False, last_updated = 2,
        energy = VReal (- 7), molecules_key = ''energy_result'' \<rparr>"]
    by (simp add: origins_of_def origin_of_def)
qed

subsection \<open>The molecule id\<close>















subsection \<open>The assembled document\<close>

lemma set_tokens_keys:
  assumes "set_tokens ts v d = Inr d'" and "ts \<noteq> []"
  shows "fst ` set d' = insert (AStr (hd ts)) (fst ` set d)"
    and "k \<noteq> AStr (hd ts) \<Longrightarrow> map_of d' k = map_of d k"
proof -
  from assms obtain w where "d' = AList.update (AStr (hd ts)) w d"
    by (cases "(ts, v, d)" rule: set_tokens.cases)
       (auto split: option.splits pyval.splits sum.splits)
  then show "fst ` set d' = insert (AStr (hd ts)) (fst ` set d)"
    and "k \<noteq> AStr (hd ts) \<Longrightarrow> map_of d' k = map_of d k"
    by (simp_all add: dom_update update_conv')
qed

lemma set_at_keys:
  assumes "set_at d path v = Inr d'"
  shows "fst ` set d' = insert (AStr (top_key path)) (fst ` set d)"
    and "k \<noteq> AStr (top_key path) \<Longrightarrow> map_of d' k = map_of d k"
  using set_tokens_keys [OF assms [unfolded set_at_def] py_split_not_Nil]
  by (simp_all add: top_key_def)

lemma set_all_keys:
  assumes "set_all best mol = Inr mol'"
  shows "fst ` set mol' = fst ` set mol \<union> (\<lambda>p. AStr (top_key (molecules_key p))) ` set best"
    and "k \<notin> (\<lambda>p. AStr (top_key (molecules_key p))) ` set best \<Longrightarrow> map_of mol' k = map_of mol k"
  using assms
proof (induction best arbitrary: mol)
  case Nil
  { case 1 then show ?case by simp }
  { case 2 then show ?case by simp }
next
  case (Cons p ps)
  { case 1
    from 1 obtain m where m: "set_at mol (molecules_key p) (value p) = Inr m"
      and r: "set_all ps m = Inr mol'" by (auto split: sum.splits)
    show ?case using Cons.IH(1) [OF r] set_at_keys(1) [OF m] by auto }
  { case 2
    from 2(2) obtain m where m: "set_at mol (molecules_key p) (value p) = Inr m"
      and r: "set_all ps m = Inr mol'" by (auto split: sum.splits)
    from 2(1) have a: "k \<noteq> AStr (top_key (molecules_key p))"
      and b: "k \<notin> (\<lambda>p. AStr (top_key (molecules_key p))) ` set ps" by auto
    show ?case using Cons.IH(2) [OF b r] set_at_keys(2) [OF m a] by simp }
qed


lemma make_mol_Inr:
  assumes "make_mol settings task_group = Inr d"
  shows "\<exists>i best lu created.
           mol_id_of (all_props_of settings task_group) = Inr i
         \<and> best_props (all_props_of settings task_group) = Inr best
         \<and> py_max (map last_updated (all_props_of settings task_group)) = Inr lu
         \<and> py_min (map last_updated (all_props_of settings task_group)) = Inr created
         \<and> set_all best
               (mol_literal lu created (remdups (map t_task_id task_group)) i (origins_of best)
                  (task_types_of (all_props_of settings task_group))) = Inr d"
  using assms by (auto simp: make_mol_def structure_name_def Let_def split: sum.splits if_splits)

lemma prop_of_rule_fields:
  assumes "p \<in> set (prop_of_rule t r)"
  shows "last_updated p = t_last_updated t" and "task_id p = t_task_id t"
    and "molecules_key p = r_molecules_key r" and "task_type p = t_task_type t"
  using assms by (auto simp: prop_of_rule_def split: option.splits if_splits)

lemma all_props_of_fields:
  assumes "p \<in> set (all_props_of settings task_group)"
  shows "\<exists>t\<in>set task_group. \<exists>r\<in>set settings.
           last_updated p = t_last_updated t \<and> task_id p = t_task_id t
         \<and> molecules_key p = r_molecules_key r \<and> task_type p = t_task_type t"
proof -
  from assms obtain t r where "t \<in> set task_group" "r \<in> set settings" "p \<in> set (prop_of_rule t r)"
    by (auto simp: all_props_of_def task_to_prop_list_def)
  then show ?thesis using prop_of_rule_fields [of p t r] by blast
qed



lemma mol_literal_lookup:
  "map_of (mol_literal lu created task_ids mol_id origins task_types) (AStr lu_field)
     = Some (VTime lu)"
  "map_of (mol_literal lu created task_ids mol_id origins task_types) (AStr ''created_at'')
     = Some (VTime created)"
  "map_of (mol_literal lu created task_ids mol_id origins task_types) (AStr store_key)
     = Some (VAtom mol_id)"
  "map_of (mol_literal lu created task_ids mol_id origins task_types) (AStr ''origins'')
     = Some (VList (map origin_doc origins))"
  by (simp_all add: mol_literal_def lu_field_def store_key_def)

lemma make_mol_untouched:
  assumes d: "make_mol settings task_group = Inr d"
    and k: "\<forall>r\<in>set settings. top_key (r_molecules_key r) \<noteq> k"
  shows "\<exists>i best lu created.
           mol_id_of (all_props_of settings task_group) = Inr i
         \<and> best_props (all_props_of settings task_group) = Inr best
         \<and> py_max (map last_updated (all_props_of settings task_group)) = Inr lu
         \<and> py_min (map last_updated (all_props_of settings task_group)) = Inr created
         \<and> map_of d (AStr k)
             = map_of (mol_literal lu created (remdups (map t_task_id task_group)) i
                         (origins_of best) (task_types_of (all_props_of settings task_group)))
                 (AStr k)"
proof -
  let ?A = "all_props_of settings task_group"
  from make_mol_Inr [OF d] obtain i best lu created where
    i: "mol_id_of ?A = Inr i" and best: "best_props ?A = Inr best"
    and lu: "py_max (map last_updated ?A) = Inr lu"
    and cr: "py_min (map last_updated ?A) = Inr created"
    and sa: "set_all best (mol_literal lu created (remdups (map t_task_id task_group)) i
               (origins_of best) (task_types_of ?A)) = Inr d"
    by blast
  have "AStr k \<notin> (\<lambda>p. AStr (top_key (molecules_key p))) ` set best"
  proof
    assume "AStr k \<in> (\<lambda>p. AStr (top_key (molecules_key p))) ` set best"
    then obtain b where b: "b \<in> set best" "top_key (molecules_key b) = k" by auto
    then have "molecules_key b \<in> molecules_key ` set ?A"
      using best_props_fields(2) [OF best] by blast
    then obtain p where "p \<in> set ?A" "molecules_key p = molecules_key b" by auto
    then obtain r where "r \<in> set settings" "molecules_key b = r_molecules_key r"
      using all_props_of_fields [of p settings task_group] by auto
    with k b(2) show False by auto
  qed
  then have "map_of d (AStr k)
      = map_of (mol_literal lu created (remdups (map t_task_id task_group)) i
                  (origins_of best) (task_types_of ?A)) (AStr k)"
    using set_all_keys(2) [OF sa] by simp
  with i best lu cr show ?thesis by blast
qed

text \<open>
  The id and the origins are the values of the returned document at their keys, unless a
  rule writes there.
\<close>

lemma make_mol_id_key:
  assumes "make_mol settings task_group = Inr d"
    and "\<forall>r\<in>set settings. top_key (r_molecules_key r) \<noteq> store_key"
  shows "\<exists>i. mol_id_of (all_props_of settings task_group) = Inr i
           \<and> map_of d (AStr store_key) = Some (VAtom i)"
  using make_mol_untouched [OF assms] by (auto simp: mol_literal_lookup)

lemma make_mol_origins_key:
  assumes "make_mol settings task_group = Inr d"
    and "\<forall>r\<in>set settings. top_key (r_molecules_key r) \<noteq> ''origins''"
  shows "\<exists>best. best_props (all_props_of settings task_group) = Inr best
           \<and> map_of d (AStr ''origins'') = Some (VList (map origin_doc (origins_of best)))"
  using make_mol_untouched [OF assms] by (auto simp: mol_literal_lookup)



subsection \<open>Validation\<close>

text \<open>
  Claim C7: a document is valid if and only if it contains the key \<^verbatim>\<open>structure\<close>; every
  document handed to the sink is the stamped copy of a valid document, and no invalid
  document is among them; the document assembled for a group with no candidate for the
  structural field is invalid and is not handed to the sink.
\<close>

theorem invalid_docs_dropped:
  "(valid doc \<longleftrightarrow> map_of doc (AStr ''structure'') \<noteq> None)
   \<and> (update_targets ts items = Some batch \<longrightarrow>
        (\<forall>d\<in>set batch. valid d
           \<and> (\<exists>i\<in>set (concat items). valid i \<and> d = AList.update (AStr ''_bt'') (VTime ts) i)))
   \<and> (i \<in> set (concat items) \<and> \<not> valid i \<and> update_targets ts items = Some batch \<longrightarrow>
        AList.update (AStr ''_bt'') (VTime ts) i \<notin> set batch)
   \<and> (make_mol settings task_group = Inr d
        \<and> (\<forall>p\<in>set (all_props_of settings task_group). molecules_key p \<noteq> ''structure'') \<longrightarrow>
        \<not> valid d \<and> update_targets ts [[d]] = None)"
proof -
  have stamp: "valid (AList.update (AStr ''_bt'') (VTime ts) x) = valid x" for x
    by (simp add: valid_def has_key_def dom_update)
  have 1: "valid doc \<longleftrightarrow> map_of doc (AStr ''structure'') \<noteq> None"
    by (simp add: valid_def has_key_def map_of_eq_None_iff)
  have b: "batch = map (AList.update (AStr ''_bt'') (VTime ts))
                     (filter valid (filter (\<lambda>i. i \<noteq> []) (concat items)))"
    if "update_targets ts items = Some batch"
    using that by (simp add: update_targets_def Let_def split: if_splits)
  have 2: "\<forall>d\<in>set batch. valid d
           \<and> (\<exists>i\<in>set (concat items). valid i \<and> d = AList.update (AStr ''_bt'') (VTime ts) i)"
    if "update_targets ts items = Some batch"
    unfolding b [OF that] by (auto simp: stamp)
  have 3: "AList.update (AStr ''_bt'') (VTime ts) i \<notin> set batch"
    if "\<not> valid i" and "update_targets ts items = Some batch"
  proof
    assume "AList.update (AStr ''_bt'') (VTime ts) i \<in> set batch"
    with 2 [OF that(2)] have "valid (AList.update (AStr ''_bt'') (VTime ts) i)" by blast
    with that(1) show False by (simp add: stamp)
  qed
  have 4: "\<not> valid d \<and> update_targets ts [[d]] = None"
    if "make_mol settings task_group = Inr d"
    using make_mol_not_valid [OF that] by (simp add: valid_def update_targets_def)
  show ?thesis using 1 2 3 4 by blast
qed

theorem invalid_docs_dropped_witness:
  "make_mol
     [\<lparr> r_molecules_key = ''charge'', r_tasks_key = ''output.charge'',
        r_quality_score = [(''optimization'', 2)], r_optional = False, r_track = True,
        r_aggregate = False \<rparr>]
     [\<lparr> t_task_id = AStr ''eg-3'', t_task_type = ''optimization'', t_formula_pretty = ''H2O'',
        t_state = ''successful'', t_last_updated = 12,
        t_body = [(AStr ''output'', VDict [(AStr ''charge'', VReal 1), (AStr ''energy'', VReal (- 3))])] \<rparr>,
      \<lparr> t_task_id = AStr ''eg-1'', t_task_type = ''optimization'', t_formula_pretty = ''H2O'',
        t_state = ''successful'', t_last_updated = 9,
        t_body = [(AStr ''output'', VDict [(AStr ''charge'', VReal 0), (AStr ''energy'', VReal (- 4))])] \<rparr>]
   = Inr
     [(AStr ''last_updated'', VTime 12), (AStr ''created_at'', VTime 9),
      (AStr ''task_ids'', VList [VAtom (AStr ''eg-3''), VAtom (AStr ''eg-1'')]),
      (AStr ''task_id'', VAtom (AStr ''eg-1'')),
      (AStr ''origins'',
       VList [VDict [(AStr ''molecules_key'', VAtom (AStr ''charge'')),
                     (AStr ''task_type'', VAtom (AStr ''optimization'')),
                     (AStr ''task_id'', VAtom (AStr ''eg-1'')),
                     (AStr ''last_updated'', VTime 9)]]),
      (AStr ''task_types'',
       VDict [(AStr ''eg-3'', VAtom (AStr ''optimization'')),
              (AStr ''eg-1'', VAtom (AStr ''optimization''))]),
      (AStr ''charge'', VReal 0)]
   \<and> \<not> valid
     [(AStr ''last_updated'', VTime 12), (AStr ''created_at'', VTime 9),
      (AStr ''task_ids'', VList [VAtom (AStr ''eg-3''), VAtom (AStr ''eg-1'')]),
      (AStr ''task_id'', VAtom (AStr ''eg-1'')),
      (AStr ''origins'',
       VList [VDict [(AStr ''molecules_key'', VAtom (AStr ''charge'')),
                     (AStr ''task_type'', VAtom (AStr ''optimization'')),
                     (AStr ''task_id'', VAtom (AStr ''eg-1'')),
                     (AStr ''last_updated'', VTime 9)]]),
      (AStr ''task_types'',
       VDict [(AStr ''eg-3'', VAtom (AStr ''optimization'')),
              (AStr ''eg-1'', VAtom (AStr ''optimization''))]),
      (AStr ''charge'', VReal 0)]
   \<and> update_targets 99
     [[[(AStr ''last_updated'', VTime 12), (AStr ''created_at'', VTime 9),
      (AStr ''task_ids'', VList [VAtom (AStr ''eg-3''), VAtom (AStr ''eg-1'')]),
      (AStr ''task_id'', VAtom (AStr ''eg-1'')),
      (AStr ''origins'',
       VList [VDict [(AStr ''molecules_key'', VAtom (AStr ''charge'')),
                     (AStr ''task_type'', VAtom (AStr ''optimization'')),
                     (AStr ''task_id'', VAtom (AStr ''eg-1'')),
                     (AStr ''last_updated'', VTime 9)]]),
      (AStr ''task_types'',
       VDict [(AStr ''eg-3'', VAtom (AStr ''optimization'')),
              (AStr ''eg-1'', VAtom (AStr ''optimization''))]),
      (AStr ''charge'', VReal 0)]]] = None"
proof -
  have h: "make_mol
     [\<lparr> r_molecules_key = ''charge'', r_tasks_key = ''output.charge'',
        r_quality_score = [(''optimization'', 2)], r_optional = False, r_track = True,
        r_aggregate = False \<rparr>]
     [\<lparr> t_task_id = AStr ''eg-3'', t_task_type = ''optimization'', t_formula_pretty = ''H2O'',
        t_state = ''successful'', t_last_updated = 12,
        t_body = [(AStr ''output'', VDict [(AStr ''charge'', VReal 1), (AStr ''energy'', VReal (- 3))])] \<rparr>,
      \<lparr> t_task_id = AStr ''eg-1'', t_task_type = ''optimization'', t_formula_pretty = ''H2O'',
        t_state = ''successful'', t_last_updated = 9,
        t_body = [(AStr ''output'', VDict [(AStr ''charge'', VReal 0), (AStr ''energy'', VReal (- 4))])] \<rparr>]
   = Inr
     [(AStr ''last_updated'', VTime 12), (AStr ''created_at'', VTime 9),
      (AStr ''task_ids'', VList [VAtom (AStr ''eg-3''), VAtom (AStr ''eg-1'')]),
      (AStr ''task_id'', VAtom (AStr ''eg-1'')),
      (AStr ''origins'',
       VList [VDict [(AStr ''molecules_key'', VAtom (AStr ''charge'')),
                     (AStr ''task_type'', VAtom (AStr ''optimization'')),
                     (AStr ''task_id'', VAtom (AStr ''eg-1'')),
                     (AStr ''last_updated'', VTime 9)]]),
      (AStr ''task_types'',
       VDict [(AStr ''eg-3'', VAtom (AStr ''optimization'')),
              (AStr ''eg-1'', VAtom (AStr ''optimization''))]),
      (AStr ''charge'', VReal 0)]"
    by code_simp
  have k: "all_props_of
     [\<lparr> r_molecules_key = ''charge'', r_tasks_key = ''output.charge'',
        r_quality_score = [(''optimization'', 2)], r_optional = False, r_track = True,
        r_aggregate = False \<rparr>]
     [\<lparr> t_task_id = AStr ''eg-3'', t_task_type = ''optimization'', t_formula_pretty = ''H2O'',
        t_state = ''successful'', t_last_updated = 12,
        t_body = [(AStr ''output'', VDict [(AStr ''charge'', VReal 1), (AStr ''energy'', VReal (- 3))])] \<rparr>,
      \<lparr> t_task_id = AStr ''eg-1'', t_task_type = ''optimization'', t_formula_pretty = ''H2O'',
        t_state = ''successful'', t_last_updated = 9,
        t_body = [(AStr ''output'', VDict [(AStr ''charge'', VReal 0), (AStr ''energy'', VReal (- 4))])] \<rparr>]
   = [\<lparr> value = VReal 1, task_type = ''optimization'', task_id = AStr ''eg-3'',
        quality_score = 2, track = True, aggregate = False, last_updated = 12,
        energy = VReal (- 3), molecules_key = ''charge'' \<rparr>,
      \<lparr> value = VReal 0, task_type = ''optimization'', task_id = AStr ''eg-1'',
        quality_score = 2, track = True, aggregate = False, last_updated = 9,
        energy = VReal (- 4), molecules_key = ''charge'' \<rparr>]"
    by code_simp
  show ?thesis
    using h invalid_docs_dropped [where ts = 99 and settings =
      "[\<lparr> r_molecules_key = ''charge'', r_tasks_key = ''output.charge'',
        r_quality_score = [(''optimization'', 2)], r_optional = False, r_track = True,
        r_aggregate = False \<rparr>]"
      and task_group =
      "[\<lparr> t_task_id = AStr ''eg-3'', t_task_type = ''optimization'', t_formula_pretty = ''H2O'',
        t_state = ''successful'', t_last_updated = 12,
        t_body = [(AStr ''output'', VDict [(AStr ''charge'', VReal 1), (AStr ''energy'', VReal (- 3))])] \<rparr>,
      \<lparr> t_task_id = AStr ''eg-1'', t_task_type = ''optimization'', t_formula_pretty = ''H2O'',
        t_state = ''successful'', t_last_updated = 9,
        t_body = [(AStr ''output'', VDict [(AStr ''charge'', VReal 0), (AStr ''energy'', VReal (- 4))])] \<rparr>]"
      and d =
      "[(AStr ''last_updated'', VTime 12), (AStr ''created_at'', VTime 9),
      (AStr ''task_ids'', VList [VAtom (AStr ''eg-3''), VAtom (AStr ''eg-1'')]),
      (AStr ''task_id'', VAtom (AStr ''eg-1'')),
      (AStr ''origins'',
       VList [VDict [(AStr ''molecules_key'', VAtom (AStr ''charge'')),
                     (AStr ''task_type'', VAtom (AStr ''optimization'')),
                     (AStr ''task_id'', VAtom (AStr ''eg-1'')),
                     (AStr ''last_updated'', VTime 9)]]),
      (AStr ''task_types'',
       VDict [(AStr ''eg-3'', VAtom (AStr ''optimization'')),
              (AStr ''eg-1'', VAtom (AStr ''optimization''))]),
      (AStr ''charge'', VReal 0)]"]
    by (simp add: k)
qed

subsection \<open>A malformed task id in a batch\<close>




lemma make_mols_Inr:
  "make_mols settings ft groups = Inr docs \<Longrightarrow>
     list_all2 (\<lambda>g d. \<exists>tg. tasks_of_group ft g = Inr tg \<and> make_mol settings tg = Inr d) groups docs"
proof (induction groups arbitrary: docs)
  case Nil
  then show ?case by simp
next
  case (Cons g groups)
  from Cons.prems obtain tg m ms where "tasks_of_group ft g = Inr tg" "make_mol settings tg = Inr m"
    "make_mols settings ft groups = Inr ms" "docs = m # ms"
    by (auto split: sum.splits)
  then show ?case using Cons.IH by simp
qed

lemma process_item_raises: "\<exists>e. process_item settings tasks = Inl e"
  by (simp add: process_item_def process_item_with_def group_structures_def Let_def
      split: list.splits sum.splits)




subsection \<open>The formulas to process\<close>

lemma matches_iff: "matches q t \<longleftrightarrow> (\<forall>k c. map_of q k = Some c \<longrightarrow> c t)"
proof
  assume m: "matches q t"
  show "\<forall>k c. map_of q k = Some c \<longrightarrow> c t"
  proof (intro allI impI)
    fix k c assume kc: "map_of q k = Some c"
    then have "k \<in> set (map fst q)" by (metis map_of_eq_None_iff option.distinct(1) list.set_map)
    moreover from m have "\<forall>k\<in>set (map fst q). case map_of q k of None \<Rightarrow> True | Some c \<Rightarrow> c t"
      by (simp only: matches_def list_all_iff)
    ultimately have "case map_of q k of None \<Rightarrow> True | Some c \<Rightarrow> c t"
      by blast
    with kc show "c t" by simp
  qed
next
  assume "\<forall>k c. map_of q k = Some c \<longrightarrow> c t"
  then show "matches q t"
    by (auto simp: matches_def list_all_iff split: option.splits)
qed

lemma matches_update:
  "matches (AList.update k c q) t \<longleftrightarrow> c t \<and> matches (AList.delete k q) t"
  by (auto simp: matches_iff update_conv' delete_conv')

lemma matches_update_fun:
  "matches (AList.update k c q) = (\<lambda>t. c t \<and> matches (AList.delete k q) t)"
  by (rule ext) (rule matches_update)

lemma matches_single: "matches [(k, c)] t \<longleftrightarrow> c t"
  by (simp add: matches_def)

lemma dict_update_lu_filter:
  "dict_update q (lu_filter checkpoint)
     = AList.update lu_field (\<lambda>t. checkpoint < t_last_updated t) q"
  by (simp add: dict_update_def lu_filter_def)

lemma set_distinct_of: "set (distinct_of field q store) = field ` {t \<in> set store. matches q t}"
  by (auto simp: distinct_of_def)

lemma unique_task_id:
  assumes "distinct (map t_task_id tasks)" and "t \<in> set tasks"
  shows "t_task_id t \<in> t_task_id ` {t' \<in> set tasks. P t'} \<longleftrightarrow> P t"
proof
  assume "t_task_id t \<in> t_task_id ` {t' \<in> set tasks. P t'}"
  then obtain t' where t': "t' \<in> set tasks" "P t'" "t_task_id t = t_task_id t'" by auto
  from assms(1) have "inj_on t_task_id (set tasks)" by (simp add: distinct_map)
  with t'(1,3) assms(2) have "t = t'" by (auto dest: inj_onD)
  with t'(2) show "P t" by simp
next
  assume "P t"
  with assms(2) show "t_task_id t \<in> t_task_id ` {t' \<in> set tasks. P t'}" by auto
qed

text \<open>
  Claim C8: the formulas that \<^verbatim>\<open>get_items\<close> processes are the union of the formulas of the
  successful tasks (tasks that match the query with the state set to successful) whose
  task id is not among the \<^verbatim>\<open>task_ids\<close> of the molecule store, and of the formulas of the
  successful tasks updated after the checkpoint of the molecule store; every formula occurs
  once, and one list of tasks is yielded for it. Task ids are unique in the task store.
\<close>

theorem forms_to_update_union:
  assumes "distinct (map t_task_id tasks)"
  shows "set (forms_to_update query checkpoint tasks molecules)
           = t_formula_pretty ` {t \<in> set tasks. matches (successful query) t
                                   \<and> t_task_id t \<notin> processed_tasks_of molecules}
           \<union> t_formula_pretty ` {t \<in> set tasks. matches (AList.delete lu_field (successful query)) t
                                   \<and> checkpoint < t_last_updated t}
       \<and> distinct (forms_to_update query checkpoint tasks molecules)
       \<and> get_items query checkpoint tasks molecules
           = map (\<lambda>formula. filter (\<lambda>t. t_formula_pretty t = formula
                       \<and> matches (AList.delete ''formula_pretty'' (successful query)) t) tasks)
               (forms_to_update query checkpoint tasks molecules)
       \<and> (matches (successful query) t
           \<longleftrightarrow> t_state t = ''successful'' \<and> matches (AList.delete ''state'' query) t)"
proof -
  let ?q = "successful query"
  let ?TP = "set (distinct_of t_task_id ?q tasks) - processed_tasks_of molecules"
  have tp: "t_task_id t \<in> ?TP
      \<longleftrightarrow> matches ?q t \<and> t_task_id t \<notin> processed_tasks_of molecules"
    if "t \<in> set tasks" for t
    using unique_task_id [OF assms that, of "matches ?q"] by (simp add: set_distinct_of)
  have new: "set (to_process_forms query tasks molecules)
      = t_formula_pretty ` {t \<in> set tasks. matches ?q t
                             \<and> t_task_id t \<notin> processed_tasks_of molecules}"
  proof -
    have "set (to_process_forms query tasks molecules)
        = t_formula_pretty ` {t \<in> set tasks. t_task_id t \<in> ?TP}"
      by (simp add: to_process_forms_def Let_def set_distinct_of matches_single)
    also have "{t \<in> set tasks. t_task_id t \<in> ?TP}
        = {t \<in> set tasks. matches ?q t \<and> t_task_id t \<notin> processed_tasks_of molecules}"
      using tp by blast
    finally show ?thesis .
  qed
  have upd: "set (updated_forms query checkpoint tasks)
      = t_formula_pretty ` {t \<in> set tasks. matches (AList.delete lu_field ?q) t
                             \<and> checkpoint < t_last_updated t}"
    by (auto simp: updated_forms_def set_distinct_of dict_update_lu_filter matches_update)
  have 1: "set (forms_to_update query checkpoint tasks molecules)
           = t_formula_pretty ` {t \<in> set tasks. matches ?q t
                                   \<and> t_task_id t \<notin> processed_tasks_of molecules}
           \<union> t_formula_pretty ` {t \<in> set tasks. matches (AList.delete lu_field ?q) t
                                   \<and> checkpoint < t_last_updated t}"
    unfolding forms_to_update_def set_remdups set_append new upd by (rule Un_commute)
  have 2: "distinct (forms_to_update query checkpoint tasks molecules)"
    by (simp add: forms_to_update_def)
  have 3: "get_items query checkpoint tasks molecules
           = map (\<lambda>formula. filter (\<lambda>t. t_formula_pretty t = formula
                       \<and> matches (AList.delete ''formula_pretty'' ?q) t) tasks)
               (forms_to_update query checkpoint tasks molecules)"
    by (simp add: get_items_def matches_update_fun)
  have 4: "matches ?q t
           \<longleftrightarrow> t_state t = ''successful'' \<and> matches (AList.delete ''state'' query) t"
    by (simp add: successful_def matches_update)
  show ?thesis using 1 2 3 4 by (intro conjI)
qed

theorem forms_to_update_union_witness:
  "forms_to_update [] 100
     [\<lparr> t_task_id = ANum 1, t_task_type = ''optimization'', t_formula_pretty = ''H2O'',
        t_state = ''successful'', t_last_updated = 10,
        t_body = [] \<rparr>,
      \<lparr> t_task_id = ANum 2, t_task_type = ''optimization'', t_formula_pretty = ''CO2'',
        t_state = ''successful'', t_last_updated = 11,
        t_body = [] \<rparr>,
      \<lparr> t_task_id = ANum 3, t_task_type = ''optimization'', t_formula_pretty = ''CH4'',
        t_state = ''successful'', t_last_updated = 12,
        t_body = [] \<rparr>,
      \<lparr> t_task_id = ANum 4, t_task_type = ''optimization'', t_formula_pretty = ''H2O'',
        t_state = ''successful'', t_last_updated = 13,
        t_body = [] \<rparr>]
     [[(AStr ''task_ids'', VList [VAtom (ANum 1), VAtom (ANum 2)])],
      [(AStr ''task_ids'', VList [VAtom (ANum 3)])]]
   = [''H2O'']
   \<and> length (get_items [] 100
     [\<lparr> t_task_id = ANum 1, t_task_type = ''optimization'', t_formula_pretty = ''H2O'',
        t_state = ''successful'', t_last_updated = 10,
        t_body = [] \<rparr>,
      \<lparr> t_task_id = ANum 2, t_task_type = ''optimization'', t_formula_pretty = ''CO2'',
        t_state = ''successful'', t_last_updated = 11,
        t_body = [] \<rparr>,
      \<lparr> t_task_id = ANum 3, t_task_type = ''optimization'', t_formula_pretty = ''CH4'',
        t_state = ''successful'', t_last_updated = 12,
        t_body = [] \<rparr>,
      \<lparr> t_task_id = ANum 4, t_task_type = ''optimization'', t_formula_pretty = ''H2O'',
        t_state = ''successful'', t_last_updated = 13,
        t_body = [] \<rparr>]
     [[(AStr ''task_ids'', VList [VAtom (ANum 1), VAtom (ANum 2)])],
      [(AStr ''task_ids'', VList [VAtom (ANum 3)])]]) = 1"
proof -
  have d: "distinct (map t_task_id
     [\<lparr> t_task_id = ANum 1, t_task_type = ''optimization'', t_formula_pretty = ''H2O'',
        t_state = ''successful'', t_last_updated = 10,
        t_body = [] \<rparr>,
      \<lparr> t_task_id = ANum 2, t_task_type = ''optimization'', t_formula_pretty = ''CO2'',
        t_state = ''successful'', t_last_updated = 11,
        t_body = [] \<rparr>,
      \<lparr> t_task_id = ANum 3, t_task_type = ''optimization'', t_formula_pretty = ''CH4'',
        t_state = ''successful'', t_last_updated = 12,
        t_body = [] \<rparr>,
      \<lparr> t_task_id = ANum 4, t_task_type = ''optimization'', t_formula_pretty = ''H2O'',
        t_state = ''successful'', t_last_updated = 13,
        t_body = [] \<rparr>])"
    by simp
  have v: "forms_to_update [] 100
     [\<lparr> t_task_id = ANum 1, t_task_type = ''optimization'', t_formula_pretty = ''H2O'',
        t_state = ''successful'', t_last_updated = 10,
        t_body = [] \<rparr>,
      \<lparr> t_task_id = ANum 2, t_task_type = ''optimization'', t_formula_pretty = ''CO2'',
        t_state = ''successful'', t_last_updated = 11,
        t_body = [] \<rparr>,
      \<lparr> t_task_id = ANum 3, t_task_type = ''optimization'', t_formula_pretty = ''CH4'',
        t_state = ''successful'', t_last_updated = 12,
        t_body = [] \<rparr>,
      \<lparr> t_task_id = ANum 4, t_task_type = ''optimization'', t_formula_pretty = ''H2O'',
        t_state = ''successful'', t_last_updated = 13,
        t_body = [] \<rparr>]
     [[(AStr ''task_ids'', VList [VAtom (ANum 1), VAtom (ANum 2)])],
      [(AStr ''task_ids'', VList [VAtom (ANum 3)])]]
   = [''H2O'']"
    by code_simp
  show ?thesis
    using v forms_to_update_union [OF d, of "[]" 100
     "[[(AStr ''task_ids'', VList [VAtom (ANum 1), VAtom (ANum 2)])],
      [(AStr ''task_ids'', VList [VAtom (ANum 3)])]]"]
    by simp
qed

end
